theory Spec2Isabelle
  imports Complex_Main
begin

section \<open>Regular expressions of the rule table\<close>

text \<open>
  The rule table of \<open>BoneMapper.ts\<close> is a list of JavaScript regular expressions with the
  \<open>i\<close> flag, applied with \<open>RegExp.prototype.test\<close>. The constructs the table uses are:
  runs of literal characters, \<open>.\<close>, the class \<open>[:_]\<close>, \<open>?\<close>, \<open>*\<close>, alternation, grouping,
  negative lookahead \<open>(?!...)\<close> and the anchors \<open>^\<close> and \<open>$\<close>.
  Strings are lists of characters. All pattern characters are ASCII, and without the \<open>u\<close>
  flag a non-ASCII character never case-folds to an ASCII one, so folding the ASCII
  letters is all that a match can observe.
\<close>

datatype regex =
    Str string
  | Dot
  | OneOf string
  | Seq regex regex
  | Alt regex regex
  | Opt regex
  | Star regex
  | NotAhead regex
  | Bol
  | Eol

text \<open>Canonicalize of the \<open>i\<close> flag: an ASCII lower-case letter becomes its upper-case letter.\<close>

definition canonicalize :: "char \<Rightarrow> char" where
  "canonicalize c =
     (let k = (of_char c :: nat) in if 97 \<le> k \<and> k \<le> 122 then char_of (k - 32) else c)"

text \<open>\<open>.\<close> matches every character but a line terminator.\<close>

definition is_line_terminator :: "char \<Rightarrow> bool" where
  "is_line_terminator c \<longleftrightarrow> (of_char c :: nat) = 10 \<or> (of_char c :: nat) = 13"

text \<open>
  Matching a run of literal characters at the head of the input, ignoring case:
  the input that remains, or \<open>None\<close> at the first character that differs.
\<close>

fun ci_strip :: "string \<Rightarrow> string \<Rightarrow> string option" where
  "ci_strip [] s = Some s"
| "ci_strip (c # w) [] = None"
| "ci_strip (c # w) (x # s) =
     (if canonicalize x = canonicalize c then ci_strip w s else None)"

text \<open>
  \<open>rmatch n r s\<close> lists, in the order the backtracking matcher tries them, the inputs that
  remain after \<open>r\<close> has matched a prefix of \<open>s\<close>; \<open>n\<close> is the length of the whole subject
  string, which \<open>^\<close> needs. An iteration of \<open>*\<close> that consumes nothing is rejected, as the
  language's RepeatMatcher does.
\<close>

function rmatch :: "nat \<Rightarrow> regex \<Rightarrow> string \<Rightarrow> string list" where
  "rmatch n (Str w) s = (case ci_strip w s of None \<Rightarrow> [] | Some t \<Rightarrow> [t])"
| "rmatch n Dot s =
     (case s of [] \<Rightarrow> [] | c # t \<Rightarrow> if is_line_terminator c then [] else [t])"
| "rmatch n (OneOf cs) s =
     (case s of [] \<Rightarrow> []
      | c # t \<Rightarrow> if canonicalize c \<in> set (map canonicalize cs) then [t] else [])"
| "rmatch n (Seq r1 r2) s = concat (map (rmatch n r2) (rmatch n r1 s))"
| "rmatch n (Alt r1 r2) s = rmatch n r1 s @ rmatch n r2 s"
| "rmatch n (Opt r) s = rmatch n r s @ [s]"
| "rmatch n (Star r) s =
     concat (map (rmatch n (Star r)) (filter (\<lambda>t. length t < length s) (rmatch n r s))) @ [s]"
| "rmatch n (NotAhead r) s = (if rmatch n r s = [] then [s] else [])"
| "rmatch n Bol s = (if length s = n then [s] else [])"
| "rmatch n Eol s = (if s = [] then [s] else [])"
  by pat_completeness auto
termination
  by (relation "measures [\<lambda>(n, r, s). size r, \<lambda>(n, r, s). length s]") auto

text \<open>\<open>pattern.test(name)\<close>: a match may start at any index of the subject.\<close>

fun search :: "nat \<Rightarrow> regex \<Rightarrow> string \<Rightarrow> bool" where
  "search n r [] = (rmatch n r [] \<noteq> [])"
| "search n r (c # s) = (if rmatch n r (c # s) \<noteq> [] then True else search n r s)"

definition regex_test :: "regex \<Rightarrow> string \<Rightarrow> bool" where
  "regex_test r s = search (length s) r s"

fun alts :: "regex list \<Rightarrow> regex" where
  "alts [] = NotAhead (Str [])"
| "alts [r] = r"
| "alts (r # rs) = Alt r (alts rs)"

fun seqs :: "regex list \<Rightarrow> regex" where
  "seqs [] = Str []"
| "seqs [r] = r"
| "seqs (r # rs) = Seq r (seqs rs)"

section \<open>BoneMapper\<close>

record BonePattern =
  pattern :: regex
  target :: string

definition rule :: "regex \<Rightarrow> string \<Rightarrow> BonePattern" where
  "rule p t = \<lparr>pattern = p, target = t\<rparr>"

text \<open>\<open>/^(w1|w2|...)$/i\<close>\<close>

definition exact :: "regex list \<Rightarrow> regex" where
  "exact rs = seqs [Bol, alts rs, Eol]"

text \<open>\<open>BONE_PATTERNS\<close>, in the order of the source.\<close>

definition BONE_PATTERNS :: "BonePattern list" where
  "BONE_PATTERNS = [
     rule (exact [Str ''armature'', Str ''root'', Str ''hips'',
                  seqs [Str ''mixamorig'', Opt (OneOf '':_''), Str ''hips'']]) ''Hips'',
     rule (alts [Str ''hips'', Str ''root'', Str ''armature'']) ''Hips'',

     rule (exact [Str ''spine2'', Str ''mixamorig:spine2'']) ''Spine2'',
     rule (exact [Str ''spine1'', Str ''mixamorig:spine1'']) ''Spine1'',
     rule (exact [Str ''spine'', Str ''mixamorig:spine'']) ''Spine'',

     rule (alts [Str ''spine2'', Str ''torso2'', Str ''chest2'']) ''Spine2'',
     rule (alts [Str ''spine1'', Str ''torso1'', Str ''chest1'']) ''Spine1'',
     rule (alts [Str ''spine'', Str ''chest'', Str ''torso'', Str ''upperback'',
                 Str ''lowerback'']) ''Spine'',

     rule (alts [Str ''neck'', Str ''mixamorig:neck'']) ''Neck'',
     rule (alts [Str ''head'', Str ''mixamorig:head'']) ''Head'',

     rule (alts [seqs [Str ''left'', Star Dot, Str ''shoulder''], Str ''leftshoulder'',
                 Str ''l_shoulder'', Str ''mixamorig:leftshoulder'']) ''LeftShoulder'',
     rule (seqs [alts [seqs [Str ''left'', Star Dot, Str ''arm'', NotAhead (Str ''fur'')],
                       Str ''leftarm'', Str ''l_arm'', Str ''mixamorig:leftarm''],
                 NotAhead (Str ''forearm'')]) ''LeftArm'',
     rule (alts [seqs [Str ''left'', Star Dot, Str ''forearm''], Str ''leftforearm'',
                 Str ''l_forearm'', Str ''mixamorig:leftforearm'']) ''LeftForeArm'',
     rule (alts [seqs [Str ''left'', Star Dot, Str ''hand''], Str ''lefthand'',
                 Str ''l_hand'', Str ''mixamorig:lefthand'']) ''LeftHand'',

     rule (alts [seqs [Str ''right'', Star Dot, Str ''shoulder''], Str ''rightshoulder'',
                 Str ''r_shoulder'', Str ''mixamorig:rightshoulder'']) ''RightShoulder'',
     rule (seqs [alts [seqs [Str ''right'', Star Dot, Str ''arm'', NotAhead (Str ''fur'')],
                       Str ''rightarm'', Str ''r_arm'', Str ''mixamorig:rightarm''],
                 NotAhead (Str ''forearm'')]) ''RightArm'',
     rule (alts [seqs [Str ''right'', Star Dot, Str ''forearm''], Str ''rightforearm'',
                 Str ''r_forearm'', Str ''mixamorig:rightforearm'']) ''RightForeArm'',
     rule (alts [seqs [Str ''right'', Star Dot, Str ''hand''], Str ''righthand'',
                 Str ''r_hand'', Str ''mixamorig:righthand'']) ''RightHand'',

     rule (alts [seqs [Str ''left'', Star Dot, Str ''hip''], Str ''lefthip'',
                 Str ''leftupleg'', Str ''l_hip'', Str ''l_upleg'',
                 Str ''mixamorig:leftupleg'']) ''LeftHip'',
     rule (seqs [alts [seqs [Str ''left'', Star Dot, Str ''leg'', NotAhead (Str ''upleg'')],
                       Str ''leftleg'', Str ''l_leg'', Str ''mixamorig:leftleg''],
                 NotAhead (Str ''upleg'')]) ''LeftLeg'',
     rule (alts [seqs [Str ''left'', Star Dot, Str ''foot''], Str ''leftfoot'',
                 Str ''l_foot'', Str ''mixamorig:leftfoot'']) ''LeftFoot'',
     rule (alts [seqs [Str ''left'', Star Dot, Str ''toe''], Str ''lefttoe'',
                 Str ''l_toe'', Str ''mixamorig:lefttoe'']) ''LeftToe'',

     rule (alts [seqs [Str ''right'', Star Dot, Str ''hip''], Str ''righthip'',
                 Str ''rightupleg'', Str ''r_hip'', Str ''r_upleg'',
                 Str ''mixamorig:rightupleg'']) ''RightHip'',
     rule (seqs [alts [seqs [Str ''right'', Star Dot, Str ''leg'', NotAhead (Str ''upleg'')],
                       Str ''rightleg'', Str ''r_leg'', Str ''mixamorig:rightleg''],
                 NotAhead (Str ''upleg'')]) ''RightLeg'',
     rule (alts [seqs [Str ''right'', Star Dot, Str ''foot''], Str ''rightfoot'',
                 Str ''r_foot'', Str ''mixamorig:rightfoot'']) ''RightFoot'',
     rule (alts [seqs [Str ''right'', Star Dot, Str ''toe''], Str ''righttoe'',
                 Str ''r_toe'', Str ''mixamorig:righttoe'']) ''RightToe''
   ]"

text \<open>The rules of the table written \<open>/^(...)$/i\<close> are its exact-match rules.\<close>

fun is_anchored :: "regex \<Rightarrow> bool" where
  "is_anchored (Seq Bol r) = True"
| "is_anchored r = False"

text \<open>
  A bone carries its name and everything else the mapper never touches (transform,
  parent and children), kept as one opaque field.
\<close>

record 'a bone =
  bone_name :: string
  bone_rest :: 'a

text \<open>
  A JavaScript \<open>Map\<close> keeps its entries in insertion order with unique keys:
  \<open>set\<close> on a present key replaces the value where the entry stands.
\<close>

type_synonym js_map = "(string \<times> string) list"

fun map_set :: "string \<Rightarrow> string \<Rightarrow> js_map \<Rightarrow> js_map" where
  "map_set k v [] = [(k, v)]"
| "map_set k v (p # ps) = (if fst p = k then (k, v) # ps else p # map_set k v ps)"

definition map_has :: "js_map \<Rightarrow> string \<Rightarrow> bool" where
  "map_has m k \<longleftrightarrow> k \<in> set (map fst m)"

definition map_get :: "js_map \<Rightarrow> string \<Rightarrow> string option" where
  "map_get m k = map_of m k"

text \<open>The inner \<open>for\<close> loop of \<open>autoMapBones\<close>: the first rule whose pattern tests true.\<close>

fun first_match :: "BonePattern list \<Rightarrow> string \<Rightarrow> string option" where
  "first_match [] nm = None"
| "first_match (p # ps) nm =
     (if regex_test (pattern p) nm then Some (target p) else first_match ps nm)"

text \<open>The callback of \<open>bones.forEach\<close>: one bone, and the mapping so far.\<close>

definition map_step :: "js_map \<Rightarrow> 'a bone \<Rightarrow> js_map" where
  "map_step mapping b =
     (case first_match BONE_PATTERNS (bone_name b) of
        Some t \<Rightarrow> map_set (bone_name b) t mapping
      | None \<Rightarrow> mapping)"

definition autoMapBones :: "'a bone list \<Rightarrow> js_map" where
  "autoMapBones bones = foldl map_step [] bones"

text \<open>
  \<open>findBoneByName\<close> returns the first bone of the array that carries the name; the model
  returns its index, which stands for the reference to the bone object.
\<close>

fun findBoneByName :: "'a bone list \<Rightarrow> string \<Rightarrow> nat option" where
  "findBoneByName [] nm = None"
| "findBoneByName (b # bs) nm =
     (if bone_name b = nm then Some 0 else map_option Suc (findBoneByName bs nm))"

text \<open>
  \<open>applyMapping\<close> walks the entries of the mapping in insertion order and renames, for each
  entry, the first bone whose current name is the entry's key. The bones are those of
  \<open>mesh.skeleton.bones\<close>; the skeleton after the call is returned. \<open>apply_entry\<close> is the
  callback of \<open>mapping.forEach\<close>.
\<close>

definition apply_entry :: "'a bone list \<Rightarrow> string \<times> string \<Rightarrow> 'a bone list" where
  "apply_entry bs e =
     (case e of (originalName, standardName) \<Rightarrow>
        (case findBoneByName bs originalName of
           Some i \<Rightarrow> bs[i := (bs ! i)\<lparr>bone_name := standardName\<rparr>]
         | None \<Rightarrow> bs))"

definition applyMapping :: "'a bone list \<Rightarrow> js_map \<Rightarrow> 'a bone list" where
  "applyMapping bones mapping = foldl apply_entry bones mapping"

text \<open>
  A name is settled by a mapping when it is not a key, or a key that the mapping sends to
  itself: renaming a bone of that name changes nothing.
\<close>

definition settled :: "js_map \<Rightarrow> string \<Rightarrow> bool" where
  "settled m nm \<longleftrightarrow> map_get m nm = None \<or> map_get m nm = Some nm"

text \<open>
  The two invariants of a run of \<open>applyMapping\<close>: bones that share a name carry a settled
  name, and every bone carries a settled name or the key of an entry still to come.
\<close>

definition twins_settled :: "js_map \<Rightarrow> 'a bone list \<Rightarrow> bool" where
  "twins_settled m bs \<longleftrightarrow>
     (\<forall>i<length bs. \<forall>j<length bs.
        i \<noteq> j \<and> bone_name (bs ! i) = bone_name (bs ! j) \<longrightarrow> settled m (bone_name (bs ! i)))"

definition pending :: "js_map \<Rightarrow> js_map \<Rightarrow> 'a bone list \<Rightarrow> bool" where
  "pending m todo bs \<longleftrightarrow>
     (\<forall>b \<in> set bs. settled m (bone_name b) \<or> bone_name b \<in> fst ` set todo)"

text \<open>A track carries its composite name and a value curve that is never inspected.\<close>

record 'c track =
  track_name :: string
  track_rest :: 'c

record ('c, 'd) clip =
  clip_tracks :: "'c track list"
  clip_rest :: 'd

text \<open>\<open>String.prototype.indexOf\<close> for one character: \<open>None\<close> stands for \<open>-1\<close>.\<close>

fun indexOf :: "string \<Rightarrow> char \<Rightarrow> nat option" where
  "indexOf [] c = None"
| "indexOf (x # xs) c = (if x = c then Some 0 else map_option Suc (indexOf xs c))"

definition rename_track :: "js_map \<Rightarrow> 'c track \<Rightarrow> 'c track" where
  "rename_track mapping t =
     (case indexOf (track_name t) CHR ''.'' of
        None \<Rightarrow> t
      | Some dotIndex \<Rightarrow>
          let boneName = take dotIndex (track_name t);
              property = drop dotIndex (track_name t)
          in if map_has mapping boneName
             then (case map_get mapping boneName of
                     Some newBoneName \<Rightarrow> t\<lparr>track_name := newBoneName @ property\<rparr>
                   | None \<Rightarrow> t)
             else t)"

definition applyMappingToAnimations ::
    "('c, 'd) clip list \<Rightarrow> js_map \<Rightarrow> ('c, 'd) clip list" where
  "applyMappingToAnimations animations mapping =
     map (\<lambda>clip. clip\<lparr>clip_tracks := map (rename_track mapping) (clip_tracks clip)\<rparr>)
       animations"

record bones_validation =
  bv_isValid :: bool
  bv_missingBones :: "string list"
  bv_foundBones :: "string list"

definition requiredBones :: "string list" where
  "requiredBones =
     [''Hips'', ''Spine'', ''Head'', ''LeftArm'', ''RightArm'', ''LeftLeg'', ''RightLeg'']"

definition validateBones :: "'a bone list \<Rightarrow> bones_validation" where
  "validateBones bones =
     (let foundBones = filter (\<lambda>name. name \<in> set requiredBones) (map bone_name bones);
          missingBones = filter (\<lambda>name. name \<notin> set foundBones) requiredBones;
          isValid = (length missingBones = 0)
      in \<lparr>bv_isValid = isValid, bv_missingBones = missingBones, bv_foundBones = foundBones\<rparr>)"

text \<open>
  A track that \<open>applyMappingToAnimations\<close> has no reason to rewrite: its name holds no
  separator, or the part before the first separator is not a key of the mapping.
\<close>

definition track_untouched :: "js_map \<Rightarrow> 'c track \<Rightarrow> bool" where
  "track_untouched mapping t =
     (case indexOf (track_name t) CHR ''.'' of
        None \<Rightarrow> True
      | Some d \<Rightarrow> \<not> map_has mapping (take d (track_name t)))"

section \<open>FBXValidator\<close>

text \<open>
  The asset is a scene graph. A node is a skinned mesh or something else; of a skinned
  mesh the validator reads the skeleton (possibly absent), the material (absent, one or
  an array) and the bounding box. Sizes are real numbers.

  The box is measured by \<open>new THREE.Box3().setFromObject(mesh)\<close> and \<open>getSize\<close>, which
  belong to the graphics library and not to the repository. What that call does for a
  mesh is a parameter of the model: it returns a size and the bounds, or it raises. The
  call stands before the check of the skeleton, and the library reads the skeleton when
  it computes the box of a skin that has no box stored on it, so a mesh without skeleton
  can make it raise.
\<close>

type_synonym vec3 = "real \<times> real \<times> real"

datatype js_error = TypeError

datatype measurement = Raises | Measured vec3 "vec3 \<times> vec3"

record material =
  is_standard_or_phong :: bool
  map_not_null :: bool

record 'a skinned_mesh =
  skeleton :: "'a bone list option"
  materials :: "material list option"
  measurement :: measurement

datatype 'a object3d = Object3D (node: "'a skinned_mesh option") (children: "'a object3d list")

record ('a, 'c) fbx_group =
  root :: "'a object3d"
  animations :: "'c list option"

text \<open>
  \<open>Object3D.traverse\<close> of the graphics library: the callback on the node itself, then the
  traversal of each child in order.
\<close>

fun traverse :: "('s \<Rightarrow> 'a object3d \<Rightarrow> 's) \<Rightarrow> 's \<Rightarrow> 'a object3d \<Rightarrow> 's" where
  "traverse f s (Object3D n cs) = foldl (traverse f) (f s (Object3D n cs)) cs"

text \<open>
  The entries of the report. Each stands for one line of the source:
  \<^item> \<open>NoSkinnedMesh\<close>: CRITICAL: No SkinnedMesh found in FBX file;
    \<open>CannotBeUsed\<close>: This file cannot be used for character rigging
  \<^item> \<open>ZeroSize\<close>: CRITICAL: Mesh has zero size in one or more dimensions;
    \<open>SizeDetail x y z\<close>: Size: x x y x z
  \<^item> \<open>NoSkeleton\<close>: CRITICAL: Mesh has no skeleton;
    \<open>NotRigged\<close>: This is not a rigged character
  \<^item> \<open>NoBones\<close>: CRITICAL: Skeleton has no bones
  \<^item> \<open>TooFewBones k m\<close>: CRITICAL: Too few bones (k < m);
    \<open>Incomplete\<close>: This model appears to be incomplete or corrupted;
    \<open>ExpectedAtLeast m\<close>: Expected at least m bones for a full character
  \<^item> \<open>VerySmall\<close>: Mesh is very small (height < 0.1 units);
    \<open>CurrentSize x y z\<close>: Current size: x x y x z;
    \<open>WillBeScaled\<close>: Will be scaled up automatically
  \<^item> \<open>MissingBones names\<close>: Missing some expected bones: names;
    \<open>AnimationMayNotWork\<close>: Animation may not work correctly
  \<^item> \<open>NoAnimations\<close>: No animations found in FBX file;
    \<open>StaticPose\<close>: Character will be static (T-pose)
  \<^item> \<open>NoTextures\<close>: No textures found;
    \<open>DefaultColors\<close>: Character will use default material colors
\<close>

datatype message =
    NoSkinnedMesh | CannotBeUsed
  | ZeroSize | SizeDetail real real real
  | NoSkeleton | NotRigged
  | NoBones
  | TooFewBones nat nat | Incomplete | ExpectedAtLeast nat
  | VerySmall | CurrentSize real real real | WillBeScaled
  | MissingBones string | AnimationMayNotWork
  | NoAnimations | StaticPose
  | NoTextures | DefaultColors

record validation_info =
  hasMesh :: bool
  meshType :: "string option"
  boneCount :: nat
  animationCount :: nat
  hasTextures :: bool
  meshSize :: "vec3 option"
  meshBounds :: "(vec3 \<times> vec3) option"

record FBXValidationResult =
  isValid :: bool
  errors :: "message list"
  warnings :: "message list"
  info :: validation_info

definition REQUIRED_BONES :: "string list" where
  "REQUIRED_BONES =
     [''Hips'', ''Spine'', ''Head'', ''LeftArm'', ''RightArm'', ''LeftLeg'', ''RightLeg'']"

definition MIN_BONE_COUNT :: nat where
  "MIN_BONE_COUNT = 20"

definition mixamoBones :: "string list" where
  "mixamoBones =
     [''mixamorigHips'', ''mixamorigSpine'', ''mixamorigHead'',
      ''mixamorigLeftArm'', ''mixamorigRightArm'',
      ''mixamorigLeftUpLeg'', ''mixamorigRightUpLeg'']"

text \<open>\<open>toLowerCase\<close> on the ASCII letters, and \<open>includes\<close>.\<close>

definition toLowerCase :: "string \<Rightarrow> string" where
  "toLowerCase s =
     map (\<lambda>c. let k = (of_char c :: nat) in
                if 65 \<le> k \<and> k \<le> 90 then char_of (k + 32) else c) s"

fun includes_str :: "string \<Rightarrow> string \<Rightarrow> bool" where
  "includes_str [] w = (w = [])"
| "includes_str (c # s) w =
     (if take (length w) (c # s) = w then True else includes_str s w)"

text \<open>\<open>xs.join(', ')\<close>\<close>

fun join :: "string list \<Rightarrow> string" where
  "join [] = []"
| "join [x] = x"
| "join (x # xs) = x @ '', '' @ join xs"

definition info0 :: validation_info where
  "info0 = \<lparr>hasMesh = False, meshType = None, boneCount = 0, animationCount = 0,
            hasTextures = False, meshSize = None, meshBounds = None\<rparr>"

text \<open>
  The callback of the traversal assigns \<open>mesh\<close> at every skinned mesh it meets, so the
  variable holds the last one when the traversal ends.
\<close>

definition visit ::
    "'a skinned_mesh option \<times> validation_info \<Rightarrow> 'a object3d
       \<Rightarrow> 'a skinned_mesh option \<times> validation_info" where
  "visit st child =
     (case node child of
        Some m \<Rightarrow> (Some m, (snd st)\<lparr>hasMesh := True, meshType := Some ''SkinnedMesh''\<rparr>)
      | None \<Rightarrow> st)"

text \<open>Step 2, the size of the bounding box: what it pushes to the errors and warnings.\<close>

definition size_errors :: "vec3 \<Rightarrow> message list" where
  "size_errors sz =
     (case sz of (x, y, z) \<Rightarrow>
        if x = 0 \<or> y = 0 \<or> z = 0 then [ZeroSize, SizeDetail x y z] else [])"

definition size_warnings :: "vec3 \<Rightarrow> message list" where
  "size_warnings sz =
     (case sz of (x, y, z) \<Rightarrow>
        if y < 0.1 then [VerySmall, CurrentSize x y z, WillBeScaled] else [])"

text \<open>Step 3, second half: the bone count against \<open>MIN_BONE_COUNT\<close>.\<close>

definition bone_count_errors :: "nat \<Rightarrow> message list" where
  "bone_count_errors k =
     (if k < MIN_BONE_COUNT
      then [TooFewBones k MIN_BONE_COUNT, Incomplete, ExpectedAtLeast MIN_BONE_COUNT]
      else [])"

text \<open>Step 4, the bone names.\<close>

definition bone_name_warnings :: "string list \<Rightarrow> message list" where
  "bone_name_warnings boneNames =
     (let hasMixamoPrefix =
            list_ex (\<lambda>name. includes_str (toLowerCase name) ''mixamorig'') boneNames;
          missingBones =
            filter (\<lambda>boneName. boneName \<notin> set boneNames)
              (if hasMixamoPrefix then mixamoBones else REQUIRED_BONES)
      in if length missingBones > 0
         then [MissingBones (join (take 3 missingBones)
                 @ (if length missingBones > 3 then ''...'' else [])),
               AnimationMayNotWork]
         else [])"

text \<open>Step 5, the animations: \<open>fbx.animations?.length || 0\<close>.\<close>

definition animation_count :: "'c list option \<Rightarrow> nat" where
  "animation_count anims = (case anims of None \<Rightarrow> 0 | Some a \<Rightarrow> length a)"

definition animation_warnings :: "nat \<Rightarrow> message list" where
  "animation_warnings k = (if k = 0 then [NoAnimations, StaticPose] else [])"

text \<open>Step 6, the textures; nothing is checked when the mesh has no material.\<close>

definition has_texture :: "material list \<Rightarrow> bool" where
  "has_texture mats =
     list_ex (\<lambda>mat. if is_standard_or_phong mat then map_not_null mat else False) mats"

definition texture_flag :: "material list option \<Rightarrow> bool" where
  "texture_flag ms = (case ms of None \<Rightarrow> False | Some mats \<Rightarrow> has_texture mats)"

definition texture_warnings :: "material list option \<Rightarrow> message list" where
  "texture_warnings ms =
     (case ms of
        None \<Rightarrow> []
      | Some mats \<Rightarrow> if \<not> has_texture mats then [NoTextures, DefaultColors] else [])"

text \<open>The value of the variable \<open>mesh\<close> when the traversal has ended.\<close>

definition selected_mesh :: "'a object3d \<Rightarrow> 'a skinned_mesh option" where
  "selected_mesh obj = fst (traverse visit (None, info0) obj)"

text \<open>
  The validator returns a report, or the exception of the measurement leaves it
  (\<open>Inl\<close>): nothing in \<open>validateFBXGroup\<close> catches it.
\<close>

definition validateFBXGroup ::
    "('a, 'c) fbx_group \<Rightarrow> js_error + FBXValidationResult" where
  "validateFBXGroup fbx =
     (case traverse visit (None, info0) (root fbx) of
        (None, info1) \<Rightarrow>
          Inr \<lparr>isValid = False, errors = [NoSkinnedMesh, CannotBeUsed], warnings = [],
               info = info1\<rparr>
      | (Some m, info1) \<Rightarrow>
          (case measurement m of
             Raises \<Rightarrow> Inl TypeError
           | Measured sz bounds \<Rightarrow>
               (case skeleton m of
                  None \<Rightarrow>
                    Inr \<lparr>isValid = False,
                         errors = size_errors sz @ [NoSkeleton, NotRigged],
                         warnings = size_warnings sz,
                         info = info1\<lparr>meshSize := Some sz, meshBounds := Some bounds\<rparr>\<rparr>
                | Some bones \<Rightarrow>
                    if length bones = 0 then
                      Inr \<lparr>isValid = False,
                           errors = size_errors sz @ [NoBones],
                           warnings = size_warnings sz,
                           info = info1\<lparr>meshSize := Some sz, meshBounds := Some bounds,
                                         boneCount := length bones\<rparr>\<rparr>
                    else
                      Inr \<lparr>isValid =
                             (length (size_errors sz @ bone_count_errors (length bones)) = 0),
                           errors = size_errors sz @ bone_count_errors (length bones),
                           warnings = size_warnings sz
                             @ bone_name_warnings (map bone_name bones)
                             @ animation_warnings (animation_count (animations fbx))
                             @ texture_warnings (materials m),
                           info = info1\<lparr>meshSize := Some sz, meshBounds := Some bounds,
                                         boneCount := length bones,
                                         animationCount := animation_count (animations fbx),
                                         hasTextures := texture_flag (materials m)\<rparr>\<rparr>)))"

text \<open>The nodes of a graph in the order in which \<open>traverse\<close> visits them.\<close>

fun preorder :: "'a object3d \<Rightarrow> 'a object3d list" where
  "preorder (Object3D n cs) = Object3D n cs # concat (map preorder cs)"

definition skinned_meshes :: "'a object3d \<Rightarrow> 'a skinned_mesh list" where
  "skinned_meshes obj = List.map_filter node (preorder obj)"

definition found_info :: validation_info where
  "found_info = info0\<lparr>hasMesh := True, meshType := Some ''SkinnedMesh''\<rparr>"

text \<open>The asset that holds one skinned mesh and nothing else, with given animations.\<close>

definition alone :: "'a skinned_mesh \<Rightarrow> 'c list option \<Rightarrow> ('a, 'c) fbx_group" where
  "alone m anims = \<lparr>root = Object3D (Some m) [], animations = anims\<rparr>"

section \<open>Concrete assets\<close>

definition mk_bone :: "string \<Rightarrow> unit bone" where
  "mk_bone nm = \<lparr>bone_name = nm, bone_rest = ()\<rparr>"

definition five_bones :: "unit bone list" where
  "five_bones = map mk_bone [''Hips'', ''Spine'', ''Head'', ''LeftArm'', ''RightArm'']"

definition five_bone_mesh :: "unit skinned_mesh" where
  "five_bone_mesh =
     \<lparr>skeleton = Some five_bones, materials = None,
      measurement = Measured (1, 2, 1) ((0, 0, 0), (1, 2, 1))\<rparr>"

definition five_bone_asset :: "(unit, unit) fbx_group" where
  "five_bone_asset =
     \<lparr>root = Object3D None [Object3D None [], Object3D (Some five_bone_mesh) []],
      animations = Some [()]\<rparr>"

definition full_bones :: "unit bone list" where
  "full_bones =
     map mk_bone [''Hips'', ''Spine'', ''Spine1'', ''Spine2'', ''Neck'', ''Head'',
                  ''LeftShoulder'', ''LeftArm'', ''LeftForeArm'', ''LeftHand'',
                  ''RightShoulder'', ''RightArm'', ''RightForeArm'', ''RightHand'',
                  ''LeftHip'', ''LeftLeg'', ''LeftFoot'', ''RightHip'', ''RightLeg'',
                  ''RightFoot'', ''LeftToe'']"

definition full_mesh :: "unit skinned_mesh" where
  "full_mesh =
     \<lparr>skeleton = Some full_bones, materials = None,
      measurement = Measured (2, 4, 2) ((0, 0, 0), (2, 4, 2))\<rparr>"

text \<open>A skinned mesh of five bones, and after it a skinned mesh of twenty-one.\<close>

definition five_then_full_asset :: "(unit, unit) fbx_group" where
  "five_then_full_asset =
     \<lparr>root = Object3D None [Object3D (Some five_bone_mesh) [], Object3D (Some full_mesh) []],
      animations = Some [()]\<rparr>"

text \<open>A skinned mesh without skeleton whose stored box has no width.\<close>

definition flat_mesh :: "unit skinned_mesh" where
  "flat_mesh =
     \<lparr>skeleton = None, materials = None,
      measurement = Measured (0, 2, 1) ((0, 0, 0), (0, 2, 1))\<rparr>"

definition flat_asset :: "(unit, unit) fbx_group" where
  "flat_asset = \<lparr>root = Object3D None [Object3D (Some flat_mesh) []], animations = None\<rparr>"

definition seven_bones :: "unit bone list" where
  "seven_bones =
     map mk_bone [''Hips'', ''Spine'', ''Head'', ''LeftArm'', ''RightArm'', ''LeftLeg'',
                  ''RightLeg'']"

definition hips_clips :: "(unit, unit) clip list" where
  "hips_clips =
     [\<lparr>clip_tracks = [\<lparr>track_name = ''mixamorigHips.position'', track_rest = ()\<rparr>,
                      \<lparr>track_name = ''Tail.quaternion'', track_rest = ()\<rparr>,
                      \<lparr>track_name = ''mixamorigHips'', track_rest = ()\<rparr>],
       clip_rest = ()\<rparr>]"

definition hips_mapping :: js_map where
  "hips_mapping = [(''mixamorigHips'', ''Hips'')]"

definition forearm_bones :: "unit bone list" where
  "forearm_bones = [mk_bone ''L_ForeArm'', mk_bone ''LeftForeArm'']"

section \<open>Evaluation\<close>

text \<open>The same two functions on the bits of a character, for evaluation.\<close>

lemma canonicalize_code [code]:
  "canonicalize (Char b0 b1 b2 b3 b4 b5 b6 b7) =
     (if b6 \<and> b5 \<and> \<not> b7 \<and> (b0 \<or> b1 \<or> b2 \<or> b3 \<or> b4) \<and> \<not> (b4 \<and> b3 \<and> (b2 \<or> (b1 \<and> b0)))
      then Char b0 b1 b2 b3 b4 False b6 b7 else Char b0 b1 b2 b3 b4 b5 b6 b7)"
  by (cases b0; cases b1; cases b2; cases b3; cases b4; cases b5; cases b6; cases b7;
      simp add: canonicalize_def; code_simp)

lemma is_line_terminator_code [code]:
  "is_line_terminator (Char b0 b1 b2 b3 b4 b5 b6 b7) \<longleftrightarrow>
     \<not> b0 \<and> b1 \<and> \<not> b2 \<and> b3 \<and> \<not> b4 \<and> \<not> b5 \<and> \<not> b6 \<and> \<not> b7 \<or>
     b0 \<and> \<not> b1 \<and> b2 \<and> b3 \<and> \<not> b4 \<and> \<not> b5 \<and> \<not> b6 \<and> \<not> b7"
  by (cases b0; cases b1; cases b2; cases b3; cases b4; cases b5; cases b6; cases b7;
      simp add: is_line_terminator_def)


section \<open>The traversal and the return paths of the validator\<close>

lemma traverse_children:
  assumes "\<And>c s. c \<in> set cs \<Longrightarrow> traverse f s c = foldl f s (preorder c)"
  shows "foldl (traverse f) s cs = foldl f s (concat (map preorder cs))"
  using assms by (induction cs arbitrary: s) simp_all

lemma traverse_preorder: "traverse f s obj = foldl f s (preorder obj)"
proof (induction obj arbitrary: s)
  case (Object3D n cs)
  have "foldl (traverse f) (f s (Object3D n cs)) cs
          = foldl f (f s (Object3D n cs)) (concat (map preorder cs))"
    by (rule traverse_children) (rule Object3D.IH)
  then show ?case by simp
qed

lemma visit_None: "node c = None \<Longrightarrow> visit st c = st"
  by (simp add: visit_def)

lemma visit_Some:
  "node c = Some m \<Longrightarrow>
     visit st c = (Some m, (snd st)\<lparr>hasMesh := True, meshType := Some ''SkinnedMesh''\<rparr>)"
  by (simp add: visit_def)

lemma foldl_visit:
  "foldl visit st xs =
     (if List.map_filter node xs = [] then st
      else (Some (last (List.map_filter node xs)),
            (snd st)\<lparr>hasMesh := True, meshType := Some ''SkinnedMesh''\<rparr>))"
proof (induction xs arbitrary: st)
  case Nil
  show ?case by (simp add: List.map_filter_simps)
next
  case (Cons x xs)
  show ?case
  proof (cases "node x")
    case None
    then show ?thesis
      by (simp add: visit_None Cons.IH List.map_filter_simps)
  next
    case (Some m)
    then show ?thesis
      by (simp add: visit_Some Cons.IH List.map_filter_simps)
  qed
qed

lemma traverse_visit:
  "traverse visit (None, info0) obj =
     (if skinned_meshes obj = [] then (None, info0)
      else (Some (last (skinned_meshes obj)), found_info))"
  by (simp add: traverse_preorder foldl_visit skinned_meshes_def found_info_def)

lemma selected_mesh_last:
  "selected_mesh obj =
     (if skinned_meshes obj = [] then None else Some (last (skinned_meshes obj)))"
  by (simp add: selected_mesh_def traverse_visit)

lemma traverse_visit_None:
  "selected_mesh obj = None \<Longrightarrow> traverse visit (None, info0) obj = (None, info0)"
  by (simp add: selected_mesh_last traverse_visit split: if_splits)

lemma traverse_visit_Some:
  "selected_mesh obj = Some m \<Longrightarrow> traverse visit (None, info0) obj = (Some m, found_info)"
  by (simp add: selected_mesh_last traverse_visit split: if_splits)

lemma validate_no_mesh:
  "selected_mesh (root fbx) = None \<Longrightarrow>
     validateFBXGroup fbx =
       Inr \<lparr>isValid = False, errors = [NoSkinnedMesh, CannotBeUsed], warnings = [],
            info = info0\<rparr>"
  by (simp add: validateFBXGroup_def traverse_visit_None)

text \<open>When the measurement raises, no report is returned, whatever the skeleton.\<close>

lemma validate_raises:
  "selected_mesh (root fbx) = Some m \<Longrightarrow> measurement m = Raises \<Longrightarrow>
     validateFBXGroup fbx = Inl TypeError"
  by (simp add: validateFBXGroup_def traverse_visit_Some)

lemma validate_no_skeleton:
  "selected_mesh (root fbx) = Some m \<Longrightarrow> measurement m = Measured sz bd \<Longrightarrow>
   skeleton m = None \<Longrightarrow>
     validateFBXGroup fbx =
       Inr \<lparr>isValid = False,
            errors = size_errors sz @ [NoSkeleton, NotRigged],
            warnings = size_warnings sz,
            info = found_info\<lparr>meshSize := Some sz, meshBounds := Some bd\<rparr>\<rparr>"
  by (simp add: validateFBXGroup_def traverse_visit_Some)

lemma validate_no_bones:
  "selected_mesh (root fbx) = Some m \<Longrightarrow> measurement m = Measured sz bd \<Longrightarrow>
   skeleton m = Some [] \<Longrightarrow>
     validateFBXGroup fbx =
       Inr \<lparr>isValid = False,
            errors = size_errors sz @ [NoBones],
            warnings = size_warnings sz,
            info = found_info\<lparr>meshSize := Some sz, meshBounds := Some bd,
                               boneCount := 0\<rparr>\<rparr>"
  by (simp add: validateFBXGroup_def traverse_visit_Some)

lemma validate_rigged:
  "selected_mesh (root fbx) = Some m \<Longrightarrow> measurement m = Measured sz bd \<Longrightarrow>
   skeleton m = Some bones \<Longrightarrow> bones \<noteq> [] \<Longrightarrow>
     validateFBXGroup fbx =
       Inr \<lparr>isValid = (size_errors sz @ bone_count_errors (length bones) = []),
            errors = size_errors sz @ bone_count_errors (length bones),
            warnings = size_warnings sz
              @ bone_name_warnings (map bone_name bones)
              @ animation_warnings (animation_count (animations fbx))
              @ texture_warnings (materials m),
            info = found_info\<lparr>meshSize := Some sz, meshBounds := Some bd,
                               boneCount := length bones,
                               animationCount := animation_count (animations fbx),
                               hasTextures := texture_flag (materials m)\<rparr>\<rparr>"
  by (simp add: validateFBXGroup_def traverse_visit_Some)

text \<open>The outcome depends on the asset through the selected mesh and the animations.\<close>

lemma selected_alone: "selected_mesh (root (alone m anims)) = Some m"
  by (simp add: selected_mesh_def visit_def alone_def)

lemma validate_alone:
  assumes "selected_mesh (root fbx) = Some m"
  shows "validateFBXGroup fbx = validateFBXGroup (alone m (animations fbx))"
proof -
  have a: "traverse visit (None, info0) (root fbx) = (Some m, found_info)"
    using assms by (rule traverse_visit_Some)
  have b: "traverse visit (None, info0) (root (alone m (animations fbx)))
             = (Some m, found_info)"
    by (rule traverse_visit_Some [OF selected_alone])
  have c: "animations (alone m (animations fbx)) = animations fbx"
    by (simp add: alone_def)
  show ?thesis
    by (simp only: validateFBXGroup_def a b c)
qed

lemma selected_five_bone_asset: "selected_mesh (root five_bone_asset) = Some five_bone_mesh"
  by (simp add: selected_mesh_def visit_def five_bone_asset_def)

lemma selected_flat_asset: "selected_mesh (root flat_asset) = Some flat_mesh"
  by (simp add: selected_mesh_def visit_def flat_asset_def)

lemma selected_five_then_full: "selected_mesh (root five_then_full_asset) = Some full_mesh"
  by (simp add: selected_mesh_def visit_def five_then_full_asset_def)

lemma skinned_five_then_full:
  "skinned_meshes (root five_then_full_asset) = [five_bone_mesh, full_mesh]"
  by (simp add: skinned_meshes_def five_then_full_asset_def List.map_filter_simps)

lemma five_bone_mesh_fields:
  "measurement five_bone_mesh = Measured (1, 2, 1) ((0, 0, 0), (1, 2, 1))"
  "skeleton five_bone_mesh = Some five_bones"
  "length five_bones = 5"
  by (simp_all add: five_bone_mesh_def five_bones_def)

lemma full_mesh_fields:
  "measurement full_mesh = Measured (2, 4, 2) ((0, 0, 0), (2, 4, 2))"
  "skeleton full_mesh = Some full_bones"
  "materials full_mesh = None"
  "length full_bones = 21"
  "full_bones \<noteq> []"
  by (simp_all add: full_mesh_def full_bones_def)

lemma flat_mesh_fields:
  "measurement flat_mesh = Measured (0, 2, 1) ((0, 0, 0), (0, 2, 1))"
  "skeleton flat_mesh = None"
  by (simp_all add: flat_mesh_def)

lemma validate_five_then_full:
  "validateFBXGroup five_then_full_asset =
     Inr \<lparr>isValid = True, errors = [],
          warnings = bone_name_warnings (map bone_name full_bones),
          info = \<lparr>hasMesh = True, meshType = Some ''SkinnedMesh'', boneCount = 21,
                  animationCount = 1, hasTextures = False,
                  meshSize = Some (2, 4, 2), meshBounds = Some ((0, 0, 0), (2, 4, 2))\<rparr>\<rparr>"
  using validate_rigged [OF selected_five_then_full full_mesh_fields(1,2,5)]
  by (simp add: full_mesh_fields size_errors_def size_warnings_def bone_count_errors_def
        MIN_BONE_COUNT_def animation_warnings_def animation_count_def texture_warnings_def
        texture_flag_def found_info_def info0_def five_then_full_asset_def)

lemma validate_flat_asset:
  "validateFBXGroup flat_asset =
     Inr \<lparr>isValid = False,
          errors = [ZeroSize, SizeDetail 0 2 1, NoSkeleton, NotRigged],
          warnings = [],
          info = \<lparr>hasMesh = True, meshType = Some ''SkinnedMesh'', boneCount = 0,
                  animationCount = 0, hasTextures = False,
                  meshSize = Some (0, 2, 1), meshBounds = Some ((0, 0, 0), (0, 2, 1))\<rparr>\<rparr>"
  using validate_no_skeleton [OF selected_flat_asset flat_mesh_fields]
  by (simp add: size_errors_def size_warnings_def found_info_def info0_def)

section \<open>Claims about the validator\<close>

text \<open>
  C10. Report consistency: every report that \<open>validateFBXGroup\<close> returns, on each of its
  four return paths, the three early returns included, has \<open>isValid\<close> true if and only if
  its list of errors is empty.
\<close>

theorem report_consistent:
  "validateFBXGroup fbx = Inr r \<Longrightarrow> isValid r \<longleftrightarrow> errors r = []"
proof (cases "selected_mesh (root fbx)")
  case None
  assume "validateFBXGroup fbx = Inr r"
  with None show ?thesis by (auto simp add: validate_no_mesh)
next
  case (Some m)
  assume r: "validateFBXGroup fbx = Inr r"
  show ?thesis
  proof (cases "measurement m")
    case Raises
    with Some r show ?thesis by (simp add: validate_raises)
  next
    case (Measured sz bd)
    show ?thesis
    proof (cases "skeleton m")
      case None
      with Some Measured r show ?thesis by (auto simp add: validate_no_skeleton)
    next
      case (Some bones)
      show ?thesis
      proof (cases "bones = []")
        case True
        with \<open>selected_mesh (root fbx) = Some m\<close> Measured Some r show ?thesis
          by (auto simp add: validate_no_bones)
      next
        case False
        with \<open>selected_mesh (root fbx) = Some m\<close> Measured Some r show ?thesis
          by (auto simp add: validate_rigged)
      qed
    qed
  qed
qed

theorem report_consistent_witness:
  "validateFBXGroup flat_asset =
     Inr \<lparr>isValid = False,
          errors = [ZeroSize, SizeDetail 0 2 1, NoSkeleton, NotRigged],
          warnings = [],
          info = \<lparr>hasMesh = True, meshType = Some ''SkinnedMesh'', boneCount = 0,
                  animationCount = 0, hasTextures = False,
                  meshSize = Some (0, 2, 1), meshBounds = Some ((0, 0, 0), (0, 2, 1))\<rparr>\<rparr> \<and>
   \<not> isValid (projr (validateFBXGroup flat_asset)) \<and>
   errors (projr (validateFBXGroup flat_asset)) \<noteq> []"
  using report_consistent [OF validate_flat_asset] validate_flat_asset by simp

text \<open>
  C8, as the code has it. When the skinned mesh that the validator selects, the last one
  in traversal order, has a skeleton of 5 bones, below the minimum of 20, and the
  measurement of its box returns, the validator returns a report that is invalid and
  whose errors hold the entry that names the bone count and the threshold.
\<close>

theorem too_few_bones:
  assumes "selected_mesh (root fbx) = Some m" and "measurement m = Measured sz bd"
    and "skeleton m = Some bones" and "length bones = 5"
  shows "\<exists>r. validateFBXGroup fbx = Inr r \<and> \<not> isValid r \<and>
             TooFewBones 5 20 \<in> set (errors r)"
proof -
  from assms(4) have "bones \<noteq> []" by auto
  with assms show ?thesis
    by (simp add: validate_rigged bone_count_errors_def MIN_BONE_COUNT_def)
qed

theorem too_few_bones_witness:
  "selected_mesh (root five_bone_asset) = Some five_bone_mesh \<and>
   skeleton five_bone_mesh = Some five_bones \<and> length five_bones = 5 \<and>
   \<not> isl (validateFBXGroup five_bone_asset) \<and>
   \<not> isValid (projr (validateFBXGroup five_bone_asset)) \<and>
   TooFewBones 5 20 \<in> set (errors (projr (validateFBXGroup five_bone_asset)))"
  using too_few_bones [OF selected_five_bone_asset five_bone_mesh_fields]
    selected_five_bone_asset five_bone_mesh_fields
  by auto

text \<open>
  C8, as the claim states it, fails: \<open>five_then_full_asset\<close> holds a skinned mesh whose
  skeleton has 5 bones, but the validator judges the skinned mesh that stands after it,
  and the report is valid with no error.
\<close>

theorem too_few_bones_counterexample:
  "five_bone_mesh \<in> set (skinned_meshes (root five_then_full_asset)) \<and>
   skeleton five_bone_mesh = Some five_bones \<and> length five_bones = 5 \<and>
   \<not> isl (validateFBXGroup five_then_full_asset) \<and>
   isValid (projr (validateFBXGroup five_then_full_asset)) \<and>
   errors (projr (validateFBXGroup five_then_full_asset)) = []"
  by (simp add: skinned_five_then_full five_bone_mesh_fields validate_five_then_full)

text \<open>
  C7, as the code has it. The size of the bounding box is measured and checked before
  the skeleton. When the selected skinned mesh has no skeleton and the measurement
  returns, the validator returns at the skeleton check with an invalid report: the
  errors are the two entries of the missing skeleton, preceded by the two zero-size
  entries if a dimension is zero, and by nothing else, so that they are the two
  no-skeleton entries alone when no dimension is zero; the warnings are the size
  warnings only. Bone count, bone names, animations and textures are not looked at: the
  counts stay 0 and the texture flag false. What happens when the measurement raises
  is not part of this statement.
\<close>

theorem no_skeleton_report:
  assumes "selected_mesh (root fbx) = Some m" and "measurement m = Measured (x, y, z) bd"
    and "skeleton m = None"
  shows "validateFBXGroup fbx =
     Inr \<lparr>isValid = False,
          errors = (if x = 0 \<or> y = 0 \<or> z = 0 then [ZeroSize, SizeDetail x y z] else [])
                   @ [NoSkeleton, NotRigged],
          warnings = (if y < 0.1 then [VerySmall, CurrentSize x y z, WillBeScaled] else []),
          info = \<lparr>hasMesh = True, meshType = Some ''SkinnedMesh'', boneCount = 0,
                  animationCount = 0, hasTextures = False,
                  meshSize = Some (x, y, z), meshBounds = Some bd\<rparr>\<rparr>"
  using assms
  by (simp add: validate_no_skeleton size_errors_def size_warnings_def found_info_def
        info0_def)

theorem no_skeleton_report_witness:
  "selected_mesh (root flat_asset) = Some flat_mesh \<and> skeleton flat_mesh = None \<and>
   validateFBXGroup flat_asset =
     Inr \<lparr>isValid = False,
          errors = [ZeroSize, SizeDetail 0 2 1, NoSkeleton, NotRigged],
          warnings = [],
          info = \<lparr>hasMesh = True, meshType = Some ''SkinnedMesh'', boneCount = 0,
                  animationCount = 0, hasTextures = False,
                  meshSize = Some (0, 2, 1), meshBounds = Some ((0, 0, 0), (0, 2, 1))\<rparr>\<rparr>"
  using no_skeleton_report [OF selected_flat_asset flat_mesh_fields]
    selected_flat_asset flat_mesh_fields
  by simp

text \<open>
  C7, as the claim states it, fails: the mesh of \<open>flat_asset\<close> has no skeleton and a
  stored box of width zero; the validator returns a report, and its errors are not the
  missing-skeleton entries alone.
\<close>

theorem no_skeleton_counterexample:
  "selected_mesh (root flat_asset) = Some flat_mesh \<and> skeleton flat_mesh = None \<and>
   \<not> isl (validateFBXGroup flat_asset) \<and>
   errors (projr (validateFBXGroup flat_asset)) \<noteq> [NoSkeleton, NotRigged]"
  by (simp add: selected_flat_asset flat_mesh_fields validate_flat_asset)

text \<open>
  C9, as the code has it. The callback overwrites the variable at every skinned mesh, so
  the validator selects the last skinned mesh in traversal order, and every check after
  the selection and the whole report refer to that mesh: the outcome is the outcome for
  the asset that holds that mesh alone, with the same animations. In a report that is
  returned, the size and the bounds are the measured ones of that mesh, and the bone
  count and the texture flag are those of that mesh.
\<close>

theorem last_mesh_selected:
  assumes "skinned_meshes (root fbx) \<noteq> []"
  shows "selected_mesh (root fbx) = Some (last (skinned_meshes (root fbx))) \<and>
         validateFBXGroup fbx
           = validateFBXGroup (alone (last (skinned_meshes (root fbx))) (animations fbx)) \<and>
         (\<forall>r. validateFBXGroup fbx = Inr r \<longrightarrow>
            hasMesh (info r) \<and>
            (\<exists>sz bd. measurement (last (skinned_meshes (root fbx))) = Measured sz bd \<and>
               meshSize (info r) = Some sz \<and> meshBounds (info r) = Some bd) \<and>
            boneCount (info r)
              = (case skeleton (last (skinned_meshes (root fbx))) of
                   None \<Rightarrow> 0 | Some bones \<Rightarrow> length bones) \<and>
            hasTextures (info r)
              = (case skeleton (last (skinned_meshes (root fbx))) of
                   None \<Rightarrow> False
                 | Some bones \<Rightarrow>
                     bones \<noteq> [] \<and>
                     texture_flag (materials (last (skinned_meshes (root fbx))))))"
proof -
  define m where "m = last (skinned_meshes (root fbx))"
  have sel: "selected_mesh (root fbx) = Some m"
    using assms by (simp add: selected_mesh_last m_def)
  have one: "validateFBXGroup fbx = validateFBXGroup (alone m (animations fbx))"
    using sel by (rule validate_alone)
  have rep: "hasMesh (info r) \<and>
      (\<exists>sz bd. measurement m = Measured sz bd \<and>
         meshSize (info r) = Some sz \<and> meshBounds (info r) = Some bd) \<and>
      boneCount (info r) = (case skeleton m of None \<Rightarrow> 0 | Some bones \<Rightarrow> length bones) \<and>
      hasTextures (info r)
        = (case skeleton m of None \<Rightarrow> False
           | Some bones \<Rightarrow> bones \<noteq> [] \<and> texture_flag (materials m))"
    if r: "validateFBXGroup fbx = Inr r" for r
  proof (cases "measurement m")
    case Raises
    with sel r show ?thesis by (simp add: validate_raises)
  next
    case (Measured sz bd)
    show ?thesis
    proof (cases "skeleton m")
      case None
      with sel Measured r show ?thesis
        by (auto simp add: validate_no_skeleton found_info_def info0_def)
    next
      case (Some bones)
      show ?thesis
      proof (cases "bones = []")
        case True
        with sel Measured Some r show ?thesis
          by (auto simp add: validate_no_bones found_info_def info0_def)
      next
        case False
        with sel Measured Some r show ?thesis
          by (auto simp add: validate_rigged found_info_def info0_def)
      qed
    qed
  qed
  from sel one rep show ?thesis
    unfolding m_def by blast
qed

theorem last_mesh_selected_witness:
  "skinned_meshes (root five_then_full_asset) \<noteq> [] \<and>
   selected_mesh (root five_then_full_asset) = Some full_mesh \<and>
   validateFBXGroup five_then_full_asset = validateFBXGroup (alone full_mesh (Some [()])) \<and>
   boneCount (info (projr (validateFBXGroup five_then_full_asset))) = 21 \<and>
   meshSize (info (projr (validateFBXGroup five_then_full_asset))) = Some (2, 4, 2)"
proof -
  have n: "skinned_meshes (root five_then_full_asset) \<noteq> []"
    by (simp add: skinned_five_then_full)
  have a: "animations five_then_full_asset = Some [()]"
    by (simp add: five_then_full_asset_def)
  have l: "last (skinned_meshes (root five_then_full_asset)) = full_mesh"
    by (simp add: skinned_five_then_full)
  from last_mesh_selected [OF n]
  have sel: "selected_mesh (root five_then_full_asset) = Some full_mesh"
    and one: "validateFBXGroup five_then_full_asset
                = validateFBXGroup (alone full_mesh (Some [()]))"
    unfolding l a by blast+
  have cnt: "boneCount (info (projr (validateFBXGroup five_then_full_asset))) = 21"
    and sz: "meshSize (info (projr (validateFBXGroup five_then_full_asset))) = Some (2, 4, 2)"
    by (simp_all add: validate_five_then_full)
  from n sel one cnt sz show ?thesis
    by (intro conjI)
qed

text \<open>
  C9, as the claim states it, fails: the first skinned mesh of \<open>five_then_full_asset\<close> in
  traversal order has 5 bones and a box of height 2; the validator selects the other
  one, and the report counts 21 bones, gives another size and is valid, which a check of
  the first mesh would not be.
\<close>

theorem first_mesh_counterexample:
  "hd (skinned_meshes (root five_then_full_asset)) = five_bone_mesh \<and>
   selected_mesh (root five_then_full_asset)
     \<noteq> Some (hd (skinned_meshes (root five_then_full_asset))) \<and>
   boneCount (info (projr (validateFBXGroup five_then_full_asset))) \<noteq> length five_bones \<and>
   meshSize (info (projr (validateFBXGroup five_then_full_asset))) \<noteq> Some (1, 2, 1) \<and>
   isValid (projr (validateFBXGroup five_then_full_asset))"
  by (simp add: skinned_five_then_full selected_five_then_full validate_five_then_full
        five_bone_mesh_fields five_bone_mesh_def full_mesh_def)

section \<open>Renaming bones and tracks\<close>

lemma findBoneByName_Some:
  "findBoneByName bs k = Some i \<Longrightarrow>
     i < length bs \<and> bone_name (bs ! i) = k \<and> (\<forall>j<i. bone_name (bs ! j) \<noteq> k)"
proof (induction bs arbitrary: i)
  case Nil
  then show ?case by simp
next
  case (Cons b bs)
  show ?case
  proof (cases "bone_name b = k")
    case True
    with Cons.prems show ?thesis by simp
  next
    case False
    with Cons.prems obtain i' where i': "findBoneByName bs k = Some i'" "i = Suc i'"
      by auto
    from Cons.IH [OF i'(1)] False i'(2) show ?thesis
      by (auto simp: less_Suc_eq_0_disj)
  qed
qed

lemma findBoneByName_None: "findBoneByName bs k = None \<longleftrightarrow> k \<notin> set (map bone_name bs)"
  by (induction bs) auto

lemma apply_entry_length: "length (apply_entry bs e) = length bs"
  by (cases e) (simp add: apply_entry_def split: option.splits)

lemma apply_entry_rest: "map bone_rest (apply_entry bs e) = map bone_rest bs"
  by (cases e)
     (auto simp: apply_entry_def map_update list_update_same_conv
        dest: findBoneByName_Some split: option.splits)

lemma apply_entry_other:
  "i < length bs \<Longrightarrow> bone_name (bs ! i) \<noteq> fst e \<Longrightarrow> apply_entry bs e ! i = bs ! i"
  by (cases e)
     (auto simp: apply_entry_def nth_list_update dest: findBoneByName_Some
        split: option.splits)

lemma applyMapping_length: "length (applyMapping bs m) = length bs"
  unfolding applyMapping_def
  by (induction m arbitrary: bs) (simp_all add: apply_entry_length)

lemma applyMapping_rest: "map bone_rest (applyMapping bs m) = map bone_rest bs"
  unfolding applyMapping_def
  by (induction m arbitrary: bs) (simp_all add: apply_entry_rest)

lemma applyMapping_other:
  "i < length bs \<Longrightarrow> \<not> map_has m (bone_name (bs ! i)) \<Longrightarrow> applyMapping bs m ! i = bs ! i"
  unfolding applyMapping_def map_has_def
proof (induction m arbitrary: bs)
  case Nil
  then show ?case by simp
next
  case (Cons e m)
  from Cons.prems have ne: "bone_name (bs ! i) \<noteq> fst e" by auto
  with Cons.prems have same: "apply_entry bs e ! i = bs ! i"
    by (simp add: apply_entry_other)
  have "foldl apply_entry (apply_entry bs e) m ! i = apply_entry bs e ! i"
    using Cons.prems same by (intro Cons.IH) (simp_all add: apply_entry_length)
  with same show ?case by simp
qed

lemma indexOf_None: "indexOf s c = None \<longleftrightarrow> c \<notin> set s"
  by (induction s) auto

lemma indexOf_first: "c \<notin> set p \<Longrightarrow> indexOf (p @ c # q) c = Some (length p)"
  by (induction p) auto

lemma map_get_has: "map_get mapping k = Some v \<Longrightarrow> map_has mapping k"
  by (auto simp: map_get_def map_has_def dest: map_of_SomeD intro: rev_image_eqI)

lemma rename_track_mapped:
  assumes "track_name t = p @ CHR ''.'' # ch" and "CHR ''.'' \<notin> set p"
    and "map_get mapping p = Some canonical"
  shows "track_name (rename_track mapping t) = canonical @ CHR ''.'' # ch"
  using assms
  by (simp add: rename_track_def indexOf_first map_get_has)

lemma clip_tracks_apply:
  "i < length clips \<Longrightarrow>
     clip_tracks (applyMappingToAnimations clips mapping ! i)
       = map (rename_track mapping) (clip_tracks (clips ! i))"
  by (simp add: applyMappingToAnimations_def)

lemma rename_track_rest: "track_rest (rename_track mapping t) = track_rest t"
  by (simp add: rename_track_def Let_def split: option.splits)

lemma rename_track_untouched: "track_untouched mapping t \<Longrightarrow> rename_track mapping t = t"
  by (simp add: rename_track_def track_untouched_def split: option.splits)


section \<open>Matching does not see the case of letters\<close>

text \<open>The equation of \<open>*\<close> calls itself on the same expression: it is unfolded by hand.\<close>

declare rmatch.simps(7) [simp del]

lemma canonicalize_idem: "canonicalize (canonicalize c) = canonicalize c"
  by (cases c) (simp add: canonicalize_code)

lemma line_terminator_canonicalize:
  "is_line_terminator (canonicalize c) = is_line_terminator c"
  by (cases c) (simp add: canonicalize_code is_line_terminator_code)

lemma ci_strip_fold:
  "ci_strip w (map canonicalize s) = map_option (map canonicalize) (ci_strip w s)"
  by (induction w s rule: ci_strip.induct) (simp_all add: canonicalize_idem)

lemma rmatch_fold:
  "rmatch n r (map canonicalize s) = map (map canonicalize) (rmatch n r s)"
proof (induction n r s rule: rmatch.induct)
  case (1 n w s)
  show ?case by (simp add: ci_strip_fold split: option.splits)
next
  case (2 n s)
  show ?case by (cases s) (simp_all add: line_terminator_canonicalize)
next
  case (3 n cs s)
  show ?case by (cases s) (simp_all add: canonicalize_idem)
next
  case (4 n r1 r2 s)
  have "concat (map (rmatch n r2) (map (map canonicalize) (rmatch n r1 s)))
        = concat (map (\<lambda>t. map (map canonicalize) (rmatch n r2 t)) (rmatch n r1 s))"
    unfolding map_map comp_def
    by (rule arg_cong [where f = concat], rule map_cong [OF refl]) (rule "4.IH"(2))
  then show ?case
    by (simp add: "4.IH"(1) map_concat comp_def)
next
  case (5 n r1 r2 s)
  then show ?case by simp
next
  case (6 n r s)
  then show ?case by simp
next
  case (7 n r s)
  let ?keep = "filter (\<lambda>t. length t < length s) (rmatch n r s)"
  have "rmatch n (Star r) (map canonicalize s)
        = concat (map (rmatch n (Star r))
            (filter (\<lambda>t. length t < length s) (rmatch n r (map canonicalize s))))
          @ [map canonicalize s]"
    by (subst rmatch.simps(7)) simp
  also have "filter (\<lambda>t. length t < length s) (rmatch n r (map canonicalize s))
        = map (map canonicalize) ?keep"
    by (simp add: "7.IH"(1) filter_map comp_def)
  also have "concat (map (rmatch n (Star r)) (map (map canonicalize) ?keep))
        = concat (map (\<lambda>t. map (map canonicalize) (rmatch n (Star r) t)) ?keep)"
    unfolding map_map comp_def
    by (rule arg_cong [where f = concat], rule map_cong [OF refl]) (rule "7.IH"(2))
  also have "\<dots> @ [map canonicalize s] = map (map canonicalize) (rmatch n (Star r) s)"
    by (subst (2) rmatch.simps(7)) (simp add: map_concat comp_def)
  finally show ?case .
next
  case (8 n r s)
  then show ?case by simp
next
  case (9 n s)
  show ?case by simp
next
  case (10 n s)
  show ?case by simp
qed


lemma search_fold: "search n r (map canonicalize s) = search n r s"
proof (induction s)
  case Nil
  show ?case by simp
next
  case (Cons c s)
  have "rmatch n r (map canonicalize (c # s)) = [] \<longleftrightarrow> rmatch n r (c # s) = []"
    by (simp only: rmatch_fold) simp
  with Cons show ?case by simp
qed

lemma regex_test_fold: "regex_test r (map canonicalize s) = regex_test r s"
  by (simp add: regex_test_def search_fold)

lemma first_match_fold: "first_match ps (map canonicalize s) = first_match ps s"
  by (induction ps) (simp_all add: regex_test_fold)

section \<open>The exact-match rules and the mapping of a bone\<close>

lemma ci_strip_all: "ci_strip w s = Some [] \<longleftrightarrow> map canonicalize s = map canonicalize w"
  by (induction w s rule: ci_strip.induct) auto

lemma search_Bol:
  "length t \<le> n \<Longrightarrow>
     search n (Seq Bol r) t \<longleftrightarrow> length t = n \<and> rmatch n r t \<noteq> []"
  by (induction t) auto

lemma rmatch_Seq_Eol: "rmatch n (Seq r Eol) s \<noteq> [] \<longleftrightarrow> [] \<in> set (rmatch n r s)"
  by (induction "rmatch n r s") auto

lemma nil_in_Str:
  "[] \<in> set (rmatch n (Str w) s) \<longleftrightarrow> map canonicalize s = map canonicalize w"
  using ci_strip_all [of w s] by (auto split: option.splits)

lemma nil_in_Alt:
  "[] \<in> set (rmatch n (Alt a b) s) \<longleftrightarrow> [] \<in> set (rmatch n a s) \<or> [] \<in> set (rmatch n b s)"
  by simp

lemma regex_test_exact2:
  "regex_test (exact [Str w1, Str w2]) s \<longleftrightarrow>
     map canonicalize s = map canonicalize w1 \<or> map canonicalize s = map canonicalize w2"
proof -
  have "regex_test (exact [Str w1, Str w2]) s
        \<longleftrightarrow> search (length s) (Seq Bol (Seq (Alt (Str w1) (Str w2)) Eol)) s"
    by (simp only: regex_test_def exact_def seqs.simps alts.simps)
  also have "\<dots> \<longleftrightarrow> rmatch (length s) (Seq (Alt (Str w1) (Str w2)) Eol) s \<noteq> []"
    by (simp only: search_Bol [OF le_refl]) simp
  also have "\<dots> \<longleftrightarrow> [] \<in> set (rmatch (length s) (Alt (Str w1) (Str w2)) s)"
    by (rule rmatch_Seq_Eol)
  finally show ?thesis
    by (simp only: nil_in_Alt nil_in_Str)
qed

lemma first_match_folded:
  "map canonicalize s = map canonicalize w \<Longrightarrow>
     first_match ps s = first_match ps (map canonicalize w)"
  by (metis first_match_fold)

lemma spine_words:
  "first_match BONE_PATTERNS (map canonicalize ''spine2'') = Some ''Spine2''"
  "first_match BONE_PATTERNS (map canonicalize ''mixamorig:spine2'') = Some ''Spine2''"
  "first_match BONE_PATTERNS (map canonicalize ''spine1'') = Some ''Spine1''"
  "first_match BONE_PATTERNS (map canonicalize ''mixamorig:spine1'') = Some ''Spine1''"
  "first_match BONE_PATTERNS (map canonicalize ''spine'') = Some ''Spine''"
  "first_match BONE_PATTERNS (map canonicalize ''mixamorig:spine'') = Some ''Spine''"
  by code_simp+



lemma anchored_rules:
  "filter (\<lambda>p. is_anchored (pattern p)) BONE_PATTERNS
     = [BONE_PATTERNS ! 0, BONE_PATTERNS ! 2, BONE_PATTERNS ! 3, BONE_PATTERNS ! 4]"
  by (simp add: BONE_PATTERNS_def rule_def exact_def)

lemma exact_rules:
  assumes "p \<in> set BONE_PATTERNS" and "pattern p = exact ws"
  shows "p = BONE_PATTERNS ! 0 \<or> p = BONE_PATTERNS ! 2 \<or> p = BONE_PATTERNS ! 3
          \<or> p = BONE_PATTERNS ! 4"
proof -
  have "is_anchored (pattern p)"
    by (simp add: assms(2) exact_def)
  with assms(1) have "p \<in> set (filter (\<lambda>p. is_anchored (pattern p)) BONE_PATTERNS)"
    by simp
  then show ?thesis
    by (simp only: anchored_rules) simp
qed

lemma exact_rows:
  "pattern (BONE_PATTERNS ! 2) = exact [Str ''spine2'', Str ''mixamorig:spine2'']"
  "target (BONE_PATTERNS ! 2) = ''Spine2''"
  "pattern (BONE_PATTERNS ! 3) = exact [Str ''spine1'', Str ''mixamorig:spine1'']"
  "target (BONE_PATTERNS ! 3) = ''Spine1''"
  "pattern (BONE_PATTERNS ! 4) = exact [Str ''spine'', Str ''mixamorig:spine'']"
  "target (BONE_PATTERNS ! 4) = ''Spine''"
  by (simp_all add: BONE_PATTERNS_def rule_def)

lemma first_row: "BONE_PATTERNS = BONE_PATTERNS ! 0 # tl BONE_PATTERNS"
  by (simp add: BONE_PATTERNS_def)

lemma first_match_head:
  "ps = p # qs \<Longrightarrow> regex_test (pattern p) s \<Longrightarrow> first_match ps s = Some (target p)"
  by simp

lemma exact_rule_first:
  assumes "p \<in> set BONE_PATTERNS" and "pattern p = exact ws"
    and "regex_test (pattern p) nm"
  shows "first_match BONE_PATTERNS nm = Some (target p)"
proof -
  consider "p = BONE_PATTERNS ! 0" | "p = BONE_PATTERNS ! 2" | "p = BONE_PATTERNS ! 3"
    | "p = BONE_PATTERNS ! 4"
    using exact_rules [OF assms(1,2)] by blast
  then show ?thesis
  proof cases
    case 1
    with assms(3) show ?thesis
      by (simp only: first_match_head [OF first_row])
  next
    case 2
    with assms(3) have "map canonicalize nm = map canonicalize ''spine2''
        \<or> map canonicalize nm = map canonicalize ''mixamorig:spine2''"
      by (simp only: exact_rows regex_test_exact2)
    then show ?thesis
      using 2 by (auto simp only: exact_rows dest!: first_match_folded [where ps = BONE_PATTERNS]
          simp: spine_words)
  next
    case 3
    with assms(3) have "map canonicalize nm = map canonicalize ''spine1''
        \<or> map canonicalize nm = map canonicalize ''mixamorig:spine1''"
      by (simp only: exact_rows regex_test_exact2)
    then show ?thesis
      using 3 by (auto simp only: exact_rows dest!: first_match_folded [where ps = BONE_PATTERNS]
          simp: spine_words)
  next
    case 4
    with assms(3) have "map canonicalize nm = map canonicalize ''spine''
        \<or> map canonicalize nm = map canonicalize ''mixamorig:spine''"
      by (simp only: exact_rows regex_test_exact2)
    then show ?thesis
      using 4 by (auto simp only: exact_rows dest!: first_match_folded [where ps = BONE_PATTERNS]
          simp: spine_words)
  qed
qed


lemma autoMapBones_foldl: "autoMapBones bones = foldl map_step [] bones"
  by (simp add: autoMapBones_def)

lemma map_of_map_set: "map_of (map_set k v m) = (map_of m)(k \<mapsto> v)"
  by (induction m) auto

lemma map_of_foldl_step:
  "map_of (foldl map_step m bones) nm =
     (if nm \<in> set (map bone_name bones) \<and> first_match BONE_PATTERNS nm \<noteq> None
      then first_match BONE_PATTERNS nm else map_of m nm)"
proof (induction bones arbitrary: m)
  case Nil
  show ?case by simp
next
  case (Cons b bones)
  show ?case
  proof (cases "first_match BONE_PATTERNS (bone_name b)")
    case None
    then have "map_step m b = m" by (simp add: map_step_def)
    with None show ?thesis by (auto simp add: Cons.IH)
  next
    case (Some t)
    then have "map_step m b = map_set (bone_name b) t m" by (simp add: map_step_def)
    with Some show ?thesis by (auto simp add: Cons.IH map_of_map_set)
  qed
qed

lemma autoMapBones_get:
  "map_get (autoMapBones bones) nm =
     (if nm \<in> set (map bone_name bones) then first_match BONE_PATTERNS nm else None)"
  by (simp add: map_get_def autoMapBones_foldl map_of_foldl_step)

section \<open>Applying a mapping twice\<close>

lemma apply_entry_settled:
  assumes "\<forall>b \<in> set bs. settled m (bone_name b)" and "map_get m k = Some v"
  shows "apply_entry bs (k, v) = bs"
proof (cases "findBoneByName bs k")
  case None
  then show ?thesis by (simp add: apply_entry_def)
next
  case (Some i)
  from findBoneByName_Some [OF Some] have i: "i < length bs" "bone_name (bs ! i) = k"
    by simp_all
  from i(1) have "bs ! i \<in> set bs" by simp
  with assms(1) have "settled m (bone_name (bs ! i))" by blast
  with i(2) assms(2) have "v = k"
    by (auto simp: settled_def)
  with i Some show ?thesis
    by (simp add: apply_entry_def list_update_same_conv)
qed

lemma applyMapping_settled:
  assumes "\<forall>b \<in> set bs. settled m (bone_name b)"
    and "\<forall>(k, v) \<in> set todo. map_get m k = Some v"
  shows "foldl apply_entry bs todo = bs"
  using assms(2)
proof (induction todo)
  case Nil
  show ?case by simp
next
  case (Cons e todo)
  obtain k v where e: "e = (k, v)" by (cases e)
  with Cons.prems have "map_get m k = Some v" by simp
  then have "apply_entry bs e = bs"
    unfolding e by (rule apply_entry_settled [OF assms(1)])
  with Cons show ?case by simp
qed

lemma apply_entry_step:
  assumes v: "settled m v" and k: "k \<notin> fst ` set todo"
    and J: "twins_settled m bs" and K: "pending m ((k, v) # todo) bs"
  shows "twins_settled m (apply_entry bs (k, v)) \<and> pending m todo (apply_entry bs (k, v))"
proof (cases "findBoneByName bs k")
  case None
  then have same: "apply_entry bs (k, v) = bs" by (simp add: apply_entry_def)
  from None have "k \<notin> set (map bone_name bs)" by (simp add: findBoneByName_None)
  with K have "pending m todo bs"
    by (auto simp: pending_def)
  with J same show ?thesis by simp
next
  case (Some i)
  from findBoneByName_Some [OF Some] have i: "i < length bs" "bone_name (bs ! i) = k"
    by simp_all
  let ?bs = "bs[i := (bs ! i)\<lparr>bone_name := v\<rparr>]"
  have new: "apply_entry bs (k, v) = ?bs" using Some by (simp add: apply_entry_def)
  have nm: "bone_name (?bs ! j) = (if j = i then v else bone_name (bs ! j))"
    if "j < length bs" for j
    using that by (simp add: nth_list_update)
  have J': "twins_settled m ?bs"
    unfolding twins_settled_def
  proof (intro allI impI)
    fix a b
    assume a: "a < length ?bs" and b: "b < length ?bs"
      and ab: "a \<noteq> b \<and> bone_name (?bs ! a) = bone_name (?bs ! b)"
    show "settled m (bone_name (?bs ! a))"
    proof (cases "a = i \<or> b = i")
      case True
      with a b ab v show ?thesis by (auto simp: nm)
    next
      case False
      with a b ab J show ?thesis
        by (auto simp: nm twins_settled_def)
    qed
  qed
  have K': "pending m todo ?bs"
    unfolding pending_def
  proof
    fix b
    assume "b \<in> set ?bs"
    then obtain j where j: "j < length bs" "b = ?bs ! j"
      by (auto simp: in_set_conv_nth)
    show "settled m (bone_name b) \<or> bone_name b \<in> fst ` set todo"
    proof (cases "j = i")
      case True
      with j v show ?thesis by (simp add: nm)
    next
      case False
      with j have b: "bone_name b = bone_name (bs ! j)" by (simp add: nm)
      from j have "bs ! j \<in> set bs" by simp
      with K have "settled m (bone_name (bs ! j)) \<or> bone_name (bs ! j) = k
          \<or> bone_name (bs ! j) \<in> fst ` set todo"
        by (auto simp: pending_def)
      moreover have "settled m (bone_name (bs ! j))" if "bone_name (bs ! j) = k"
        using J j(1) i False that by (auto simp: twins_settled_def)
      ultimately show ?thesis using b by auto
    qed
  qed
  from J' K' new show ?thesis by simp
qed

lemma applyMapping_settles:
  assumes "distinct (map fst todo)"
    and "\<forall>(k, v) \<in> set todo. settled m v"
    and "twins_settled m bs" and "pending m todo bs"
  shows "pending m [] (foldl apply_entry bs todo)"
  using assms
proof (induction todo arbitrary: bs)
  case Nil
  then show ?case by simp
next
  case (Cons e todo)
  obtain k v where e: "e = (k, v)" by (cases e)
  from Cons.prems e have v: "settled m v" and k: "k \<notin> fst ` set todo"
    by auto
  from apply_entry_step [OF v k Cons.prems(3)] Cons.prems(4) e
  have step: "twins_settled m (apply_entry bs e)" "pending m todo (apply_entry bs e)"
    by simp_all
  have "pending m [] (foldl apply_entry (apply_entry bs e) todo)"
    using Cons.prems(1,2) step by (intro Cons.IH) auto
  then show ?case by simp
qed

lemma applyMapping_twice:
  assumes names: "distinct (map bone_name bs)" and keys: "distinct (map fst m)"
    and targets: "\<forall>(k, v) \<in> set m. settled m v"
  shows "applyMapping (applyMapping bs m) m = applyMapping bs m"
proof -
  have J: "twins_settled m bs"
    using names by (auto simp: twins_settled_def distinct_conv_nth)
  have K: "pending m m bs"
    by (auto simp: pending_def settled_def map_get_def map_of_eq_None_iff)
  have "pending m [] (foldl apply_entry bs m)"
    by (rule applyMapping_settles [OF keys targets J K])
  then have s: "\<forall>b \<in> set (applyMapping bs m). settled m (bone_name b)"
    by (simp add: pending_def applyMapping_def)
  have g: "\<forall>(k, v) \<in> set m. map_get m k = Some v"
    using keys by (auto simp: map_get_def)
  show ?thesis
    using applyMapping_settled [OF s g] by (simp add: applyMapping_def)
qed

lemma fst_set_map_set: "fst ` set (map_set k v m) = insert k (fst ` set m)"
  by (induction m) auto

lemma distinct_map_set: "distinct (map fst m) \<Longrightarrow> distinct (map fst (map_set k v m))"
  by (induction m) (auto simp: fst_set_map_set)

lemma distinct_map_step: "distinct (map fst m) \<Longrightarrow> distinct (map fst (map_step m b))"
  by (simp add: map_step_def distinct_map_set split: option.splits)

lemma distinct_foldl_step:
  "distinct (map fst m) \<Longrightarrow> distinct (map fst (foldl map_step m bones))"
  by (induction bones arbitrary: m) (simp_all add: distinct_map_step)

lemma autoMapBones_keys: "distinct (map fst (autoMapBones bones))"
  by (simp add: autoMapBones_def distinct_foldl_step)

lemma forearm_mapping:
  "autoMapBones forearm_bones
     = [(''L_ForeArm'', ''LeftForeArm''), (''LeftForeArm'', ''LeftArm'')]"
  by code_simp

text \<open>
  Every target of the table but the two forearm targets is classified as itself, so the
  targets of a mapping are settled when no bone carries one of those two names.
\<close>

lemma first_match_target: "first_match ps s = Some t \<Longrightarrow> t \<in> set (map target ps)"
  by (induction ps) (auto split: if_splits)

lemma targets_of_table:
  "map target BONE_PATTERNS =
     [''Hips'', ''Hips'', ''Spine2'', ''Spine1'', ''Spine'', ''Spine2'', ''Spine1'', ''Spine'',
      ''Neck'', ''Head'',
      ''LeftShoulder'', ''LeftArm'', ''LeftForeArm'', ''LeftHand'',
      ''RightShoulder'', ''RightArm'', ''RightForeArm'', ''RightHand'',
      ''LeftHip'', ''LeftLeg'', ''LeftFoot'', ''LeftToe'',
      ''RightHip'', ''RightLeg'', ''RightFoot'', ''RightToe'']"
  by (simp add: BONE_PATTERNS_def rule_def)

lemma targets_fixed:
  "list_all (\<lambda>t. first_match BONE_PATTERNS t = Some t)
     [''Hips'', ''Spine2'', ''Spine1'', ''Spine'', ''Neck'', ''Head'',
      ''LeftShoulder'', ''LeftArm'', ''LeftHand'',
      ''RightShoulder'', ''RightArm'', ''RightHand'',
      ''LeftHip'', ''LeftLeg'', ''LeftFoot'', ''LeftToe'',
      ''RightHip'', ''RightLeg'', ''RightFoot'', ''RightToe'']"
  by code_simp

lemma target_fixed:
  assumes "first_match BONE_PATTERNS s = Some t"
    and "t \<noteq> ''LeftForeArm''" and "t \<noteq> ''RightForeArm''"
  shows "first_match BONE_PATTERNS t = Some t"
proof -
  from first_match_target [OF assms(1)] have "t \<in> set (map target BONE_PATTERNS)" .
  with assms(2,3) have
    "t \<in> set [''Hips'', ''Spine2'', ''Spine1'', ''Spine'', ''Neck'', ''Head'',
      ''LeftShoulder'', ''LeftArm'', ''LeftHand'',
      ''RightShoulder'', ''RightArm'', ''RightHand'',
      ''LeftHip'', ''LeftLeg'', ''LeftFoot'', ''LeftToe'',
      ''RightHip'', ''RightLeg'', ''RightFoot'', ''RightToe'']"
    unfolding targets_of_table by auto
  with targets_fixed show ?thesis
    unfolding list_all_iff by blast
qed

lemma settled_without_forearm_names:
  assumes "''LeftForeArm'' \<notin> set (map bone_name bones)"
    and "''RightForeArm'' \<notin> set (map bone_name bones)"
  shows "\<forall>(k, v) \<in> set (autoMapBones bones). settled (autoMapBones bones) v"
proof (intro ballI, clarify)
  fix k v
  assume "(k, v) \<in> set (autoMapBones bones)"
  then have "map_get (autoMapBones bones) k = Some v"
    using autoMapBones_keys [of bones] by (simp add: map_get_def)
  then have fm: "first_match BONE_PATTERNS k = Some v"
    by (simp add: autoMapBones_get split: if_splits)
  show "settled (autoMapBones bones) v"
  proof (cases "v \<in> set (map bone_name bones)")
    case False
    then show ?thesis by (simp add: settled_def autoMapBones_get)
  next
    case True
    with assms have "v \<noteq> ''LeftForeArm''" "v \<noteq> ''RightForeArm''" by blast+
    from target_fixed [OF fm this] True show ?thesis
      by (simp add: settled_def autoMapBones_get)
  qed
qed

text \<open>
  So the second run of \<open>applyMapping\<close> changes nothing on any skeleton with pairwise
  distinct names that holds no bone named after one of the two forearm targets.
\<close>

lemma applyMapping_twice_without_forearm_names:
  assumes "distinct (map bone_name bones)"
    and "''LeftForeArm'' \<notin> set (map bone_name bones)"
    and "''RightForeArm'' \<notin> set (map bone_name bones)"
  shows "applyMapping (applyMapping bones (autoMapBones bones)) (autoMapBones bones)
           = applyMapping bones (autoMapBones bones)"
  using assms(1) autoMapBones_keys settled_without_forearm_names [OF assms(2,3)]
  by (rule applyMapping_twice)

text \<open>
  The lookahead \<open>(?!upleg)\<close> of the lower-leg rules stands behind the matched text in the
  same way: \<open>LeftUpLeg\<close> is kept from the lower leg by the hip rule that stands earlier,
  and a spelling that the hip rule does not know is classified as the lower leg.
\<close>

lemma upper_leg_names:
  "first_match BONE_PATTERNS ''LeftUpLeg'' = Some ''LeftHip''"
  "first_match BONE_PATTERNS ''Left_UpLeg'' = Some ''LeftLeg''"
  by code_simp+

section \<open>Claims about the bone mapper\<close>

text \<open>
  C1. The claim that a forearm bone is never mapped to the upper-arm target does not hold
  of the code: the lookahead \<open>(?!forearm)\<close> of the upper-arm rule looks behind the text
  that \<open>left.*arm\<close> has matched, where nothing follows, and the upper-arm rule stands
  before the forearm rule. Both example names of the claim are mapped to \<open>LeftArm\<close>.
\<close>

theorem forearm_classified_as_upper_arm:
  "autoMapBones [mk_bone ''LeftForeArm'', mk_bone ''mixamorigLeftForeArm'']
     = [(''LeftForeArm'', ''LeftArm''), (''mixamorigLeftForeArm'', ''LeftArm'')]"
  by code_simp

text \<open>
  C6. \<open>validateBones\<close> reports valid if and only if each of the seven required names is
  the name of some bone of the skeleton, by equality of strings, and the missing bones
  are the required names that no bone carries, in the order of the required list.
\<close>

theorem validateBones_required:
  "(bv_isValid (validateBones bones) \<longleftrightarrow>
      (\<forall>n \<in> set [''Hips'', ''Spine'', ''Head'', ''LeftArm'', ''RightArm'', ''LeftLeg'',
                   ''RightLeg'']. n \<in> set (map bone_name bones))) \<and>
   bv_missingBones (validateBones bones) =
     filter (\<lambda>n. n \<notin> set (map bone_name bones))
       [''Hips'', ''Spine'', ''Head'', ''LeftArm'', ''RightArm'', ''LeftLeg'', ''RightLeg'']"
proof -
  have m: "bv_missingBones (validateBones bones) =
      filter (\<lambda>n. n \<notin> set (map bone_name bones)) requiredBones"
    unfolding validateBones_def Let_def
    by (simp cong: filter_cong)
  have v: "bv_isValid (validateBones bones) \<longleftrightarrow> bv_missingBones (validateBones bones) = []"
    unfolding validateBones_def Let_def by simp
  have e: "filter (\<lambda>n. n \<notin> set (map bone_name bones)) requiredBones = [] \<longleftrightarrow>
      (\<forall>n \<in> set requiredBones. n \<in> set (map bone_name bones))"
    by (simp only: filter_empty_conv) blast
  show ?thesis
    using m v e by (simp only: requiredBones_def) 
qed

theorem validateBones_required_witness:
  "bv_isValid (validateBones seven_bones) \<and> bv_missingBones (validateBones seven_bones) = []"
  using validateBones_required [of seven_bones]
  by (simp add: seven_bones_def mk_bone_def)

text \<open>
  C4. A track whose name is \<open>p\<close>, a separator and a rest, with no separator in \<open>p\<close>, and
  whose prefix \<open>p\<close> the mapping sends to a canonical name, is renamed to the canonical
  name followed by the separator and the rest, unchanged.
\<close>

theorem track_rewritten:
  assumes "i < length clips" and "j < length (clip_tracks (clips ! i))"
    and "track_name (clip_tracks (clips ! i) ! j) = p @ CHR ''.'' # ch"
    and "CHR ''.'' \<notin> set p"
    and "map_get mapping p = Some canonical"
  shows "track_name (clip_tracks (applyMappingToAnimations clips mapping ! i) ! j)
           = canonical @ CHR ''.'' # ch"
  using assms by (simp add: clip_tracks_apply rename_track_mapped)

theorem track_rewritten_witness:
  "track_name (clip_tracks (applyMappingToAnimations hips_clips hips_mapping ! 0) ! 0)
     = ''Hips.position''"
proof -
  have a: "0 < length hips_clips" by (simp add: hips_clips_def)
  have b: "0 < length (clip_tracks (hips_clips ! 0))" by (simp add: hips_clips_def)
  have c: "track_name (clip_tracks (hips_clips ! 0) ! 0)
             = ''mixamorigHips'' @ CHR ''.'' # ''position''"
    by (simp add: hips_clips_def)
  have d: "CHR ''.'' \<notin> set ''mixamorigHips''" by simp
  have e: "map_get hips_mapping ''mixamorigHips'' = Some ''Hips''"
    by (simp add: hips_mapping_def map_get_def)
  show ?thesis
    using track_rewritten [OF a b c d e] by simp
qed

text \<open>
  C5. Frame of the two applications. \<open>applyMapping\<close> keeps the number and the order of the
  bones and everything of a bone but its name, and a bone whose name is not a key of the
  mapping is left as it is. \<open>applyMappingToAnimations\<close> keeps the clips, the number and
  the order of their tracks and the curves, and a track with no separator in its name, or
  whose prefix is not a key, is left as it is.
\<close>

theorem mapping_frame:
  "length (applyMapping bones mapping) = length bones \<and>
   map bone_rest (applyMapping bones mapping) = map bone_rest bones \<and>
   (\<forall>i<length bones. \<not> map_has mapping (bone_name (bones ! i)) \<longrightarrow>
        applyMapping bones mapping ! i = bones ! i) \<and>
   length (applyMappingToAnimations clips mapping) = length clips \<and>
   map clip_rest (applyMappingToAnimations clips mapping) = map clip_rest clips \<and>
   (\<forall>i<length clips.
      map track_rest (clip_tracks (applyMappingToAnimations clips mapping ! i))
        = map track_rest (clip_tracks (clips ! i)) \<and>
      (\<forall>j<length (clip_tracks (clips ! i)).
         track_untouched mapping (clip_tracks (clips ! i) ! j) \<longrightarrow>
           clip_tracks (applyMappingToAnimations clips mapping ! i) ! j
             = clip_tracks (clips ! i) ! j))"
proof -
  have 1: "map clip_rest (applyMappingToAnimations clips mapping) = map clip_rest clips"
    by (simp add: applyMappingToAnimations_def comp_def)
  have 2: "length (applyMappingToAnimations clips mapping) = length clips"
    by (simp add: applyMappingToAnimations_def)
  have 3: "map track_rest (clip_tracks (applyMappingToAnimations clips mapping ! i))
        = map track_rest (clip_tracks (clips ! i))" if "i < length clips" for i
    using that by (simp add: clip_tracks_apply comp_def rename_track_rest)
  have 4: "clip_tracks (applyMappingToAnimations clips mapping ! i) ! j
             = clip_tracks (clips ! i) ! j"
    if "i < length clips" "j < length (clip_tracks (clips ! i))"
      "track_untouched mapping (clip_tracks (clips ! i) ! j)" for i j
    using that by (simp add: clip_tracks_apply rename_track_untouched)
  show ?thesis
    using 1 2 3 4 by (simp add: applyMapping_length applyMapping_rest applyMapping_other)
qed

theorem mapping_frame_witness:
  "applyMapping [mk_bone ''mixamorigHips'', mk_bone ''Tail''] hips_mapping ! 1 = mk_bone ''Tail'' \<and>
   clip_tracks (applyMappingToAnimations hips_clips hips_mapping ! 0) ! 1
     = \<lparr>track_name = ''Tail.quaternion'', track_rest = ()\<rparr> \<and>
   clip_tracks (applyMappingToAnimations hips_clips hips_mapping ! 0) ! 2
     = \<lparr>track_name = ''mixamorigHips'', track_rest = ()\<rparr>"
  using mapping_frame [of "[mk_bone ''mixamorigHips'', mk_bone ''Tail'']" hips_mapping hips_clips]
  by (simp add: hips_clips_def hips_mapping_def mk_bone_def map_has_def track_untouched_def
        less_Suc_eq_0_disj numeral_3_eq_3)

text \<open>
  C3. Priority. The first rule of the table whose pattern tests true decides, and the
  later rules are not consulted. When the name of a bone matches an exact-match rule of
  the table (a rule written \<open>/^(...)$/i\<close>), whatever looser rules match it as well, the
  classification is the target of that exact rule, and so is the entry of the mapping.
  The witness is the bone named \<open>Spine1\<close>: it matches the exact rule of \<open>Spine1\<close> and the
  two loose spine rules, and is mapped to \<open>Spine1\<close>.
\<close>

theorem exact_rule_wins:
  assumes "b \<in> set bones"
    and "p \<in> set BONE_PATTERNS" and "pattern p = exact ws"
    and "regex_test (pattern p) (bone_name b)"
  shows "first_match BONE_PATTERNS (bone_name b) = Some (target p) \<and>
         map_get (autoMapBones bones) (bone_name b) = Some (target p)"
  using assms(1) exact_rule_first [OF assms(2,3,4)]
  by (simp add: autoMapBones_get)

theorem exact_rule_wins_witness:
  "regex_test (pattern (BONE_PATTERNS ! 3)) ''Spine1'' \<and>
   regex_test (pattern (BONE_PATTERNS ! 6)) ''Spine1'' \<and>
   regex_test (pattern (BONE_PATTERNS ! 7)) ''Spine1'' \<and>
   target (BONE_PATTERNS ! 7) = ''Spine'' \<and>
   map_get (autoMapBones [mk_bone ''Spine1'']) ''Spine1'' = Some ''Spine1''"
proof -
  have b: "mk_bone ''Spine1'' \<in> set [mk_bone ''Spine1'']" by simp
  have p: "BONE_PATTERNS ! 3 \<in> set BONE_PATTERNS"
    by (rule nth_mem) (simp add: BONE_PATTERNS_def)
  have t: "regex_test (pattern (BONE_PATTERNS ! 3)) (bone_name (mk_bone ''Spine1''))"
    by code_simp
  have l: "regex_test (pattern (BONE_PATTERNS ! 6)) ''Spine1''"
    "regex_test (pattern (BONE_PATTERNS ! 7)) ''Spine1''"
    "target (BONE_PATTERNS ! 7) = ''Spine''"
    by code_simp+
  show ?thesis
    using exact_rule_wins [OF b p exact_rows(3) t] t l
    by (simp add: mk_bone_def exact_rows)
qed

text \<open>
  C2. The claim that a second run of \<open>applyMapping\<close> changes nothing does not hold of
  the code on the skeleton of the two bones \<open>L_ForeArm\<close> and \<open>LeftForeArm\<close>, whose names
  are distinct. The mapping sends \<open>L_ForeArm\<close> to \<open>LeftForeArm\<close> and, by the misplaced
  lookahead of C1, \<open>LeftForeArm\<close> to \<open>LeftArm\<close>. The first run renames the first bone
  twice and leaves the second bone; the second run still finds a bone named
  \<open>LeftForeArm\<close> and renames it.
\<close>

theorem applyMapping_twice_forearm:
  "distinct (map bone_name forearm_bones) \<and>
   autoMapBones forearm_bones
     = [(''L_ForeArm'', ''LeftForeArm''), (''LeftForeArm'', ''LeftArm'')] \<and>
   applyMapping forearm_bones (autoMapBones forearm_bones)
     = [mk_bone ''LeftArm'', mk_bone ''LeftForeArm''] \<and>
   applyMapping (applyMapping forearm_bones (autoMapBones forearm_bones))
       (autoMapBones forearm_bones)
     = [mk_bone ''LeftArm'', mk_bone ''LeftArm'']"
  unfolding forearm_mapping
  by (simp add: forearm_bones_def mk_bone_def applyMapping_def apply_entry_def)

end
